theory Spec2Isabelle
  imports Complex_Main "HOL-Library.Sublist" "HOL-Library.Product_Lexorder" "HOL-Library.Multiset" "HOL-Library.Word"
begin

section \<open>Python strings\<close>

text \<open>
  A Python \<^verbatim>\<open>str\<close> is modelled as a \<^typ>\<open>string\<close> of ASCII characters.
  \<^verbatim>\<open>a in b\<close> on two strings is \<^const>\<open>sublist\<close> (a contiguous occurrence).
\<close>

definition isspace :: "char \<Rightarrow> bool" where
  "isspace c = ((of_char c :: nat) \<in> {9, 10, 11, 12, 13, 28, 29, 30, 31, 32})"

definition isupper :: "char \<Rightarrow> bool" where
  "isupper c = (65 \<le> (of_char c :: nat) \<and> (of_char c :: nat) \<le> 90)"

definition islower :: "char \<Rightarrow> bool" where
  "islower c = (97 \<le> (of_char c :: nat) \<and> (of_char c :: nat) \<le> 122)"

definition lower_char :: "char \<Rightarrow> char" where
  "lower_char c = (if isupper c then char_of ((of_char c :: nat) + 32) else c)"

definition upper_char :: "char \<Rightarrow> char" where
  "upper_char c = (if islower c then char_of ((of_char c :: nat) - 32) else c)"

text \<open>\<^verbatim>\<open>s.lower()\<close>\<close>
definition lower :: "string \<Rightarrow> string" where
  "lower s = map lower_char s"

text \<open>\<^verbatim>\<open>s.strip()\<close>: whitespace removed at both ends.\<close>
definition strip :: "string \<Rightarrow> string" where
  "strip s = rev (dropWhile isspace (rev (dropWhile isspace s)))"

text \<open>
  \<^verbatim>\<open>s.split()\<close>: the maximal runs of non-whitespace characters, in order.
  The first argument is the word read so far.
\<close>
fun split_aux :: "string \<Rightarrow> string \<Rightarrow> string list" where
  "split_aux cur [] = (if cur = [] then [] else [cur])"
| "split_aux cur (c # cs) =
     (if isspace c then (if cur = [] then split_aux [] cs else cur # split_aux [] cs)
      else split_aux (cur @ [c]) cs)"

definition split_ws :: "string \<Rightarrow> string list" where
  "split_ws s = split_aux [] s"

text \<open>
  \<^verbatim>\<open>s.title()\<close>: a letter that follows a letter is lowered, any other letter is
  raised. The flag says whether the previous character was a letter.
\<close>
fun title_aux :: "bool \<Rightarrow> string \<Rightarrow> string" where
  "title_aux prev [] = []"
| "title_aux prev (c # cs) =
     (if isupper c \<or> islower c
      then (if prev then lower_char c else upper_char c) # title_aux True cs
      else c # title_aux False cs)"

definition title :: "string \<Rightarrow> string" where
  "title s = title_aux False s"

text \<open>\<^verbatim>\<open>s.split(sep)\<close> for a separator of one character.\<close>
fun split_on :: "char \<Rightarrow> string \<Rightarrow> string list" where
  "split_on sep [] = [[]]"
| "split_on sep (c # cs) =
     (if c = sep then [] # split_on sep cs
      else (case split_on sep cs of
              [] \<Rightarrow> [[c]]
            | w # ws \<Rightarrow> (c # w) # ws))"

text \<open>\<^verbatim>\<open>s.endswith(t)\<close>\<close>
definition endswith :: "string \<Rightarrow> string \<Rightarrow> bool" where
  "endswith s t = suffix t s"

section \<open>Password hashing\<close>

text \<open>
  \<^verbatim>\<open>hashlib.sha256\<close> and \<^verbatim>\<open>secrets\<close> are libraries: the digest function
  \<open>sha256\<close> (from the bytes hashed to the 32 bytes of the digest) is a parameter, and the
  random bytes drawn by \<^verbatim>\<open>secrets.token_hex\<close> are an input. \<^verbatim>\<open>hexdigest()\<close> and
  \<^verbatim>\<open>token_hex\<close> write each byte as two lowercase hexadecimal digits.
\<close>

datatype error = ValueError | TypeError | KeyError | AttributeError | ParserError | IOError

definition hex_digit :: "nat \<Rightarrow> char" where
  "hex_digit n = (if n < 10 then char_of (48 + n) else char_of (87 + n))"

definition hex_byte :: "8 word \<Rightarrow> string" where
  "hex_byte b = [hex_digit (unat b div 16), hex_digit (unat b mod 16)]"

definition hex :: "8 word list \<Rightarrow> string" where
  "hex bs = concat (map hex_byte bs)"

definition hexdigest :: "(string \<Rightarrow> 8 word list) \<Rightarrow> string \<Rightarrow> string" where
  "hexdigest sha256 s = hex (sha256 s)"

text \<open>
  \<^verbatim>\<open>
  def hash_password(password):
      salt = secrets.token_hex(16)
      return salt + ':' + hashlib.sha256((salt + password).encode()).hexdigest()
  \<close>
  \<open>rnd\<close> are the bytes that \<^verbatim>\<open>token_hex\<close> draws.
\<close>
definition hash_password :: "(string \<Rightarrow> 8 word list) \<Rightarrow> 8 word list \<Rightarrow> string \<Rightarrow> string" where
  "hash_password sha256 rnd password =
     (let salt = hex rnd
      in salt @ '':'' @ hexdigest sha256 (salt @ password))"

text \<open>
  \<^verbatim>\<open>
  def verify_password(stored_password, provided_password):
      salt, hashed = stored_password.split(':')
      return hashlib.sha256((salt + provided_password).encode()).hexdigest() == hashed
  \<close>
  Unpacking raises ValueError unless the split has exactly two parts.
\<close>
definition verify_password ::
  "(string \<Rightarrow> 8 word list) \<Rightarrow> string \<Rightarrow> string \<Rightarrow> error + bool" where
  "verify_password sha256 stored_password provided_password =
     (case split_on CHR '':'' stored_password of
        [salt, hashed] \<Rightarrow> Inr (hexdigest sha256 (salt @ provided_password) = hashed)
      | _ \<Rightarrow> Inl ValueError)"

section \<open>Activity log\<close>

record log_entry =
  timestamp :: string
  user :: string
  action :: string
  details :: string
  ip :: string

text \<open>
  The journal file \<^verbatim>\<open>logs.json\<close> as \<^verbatim>\<open>log_activity\<close> meets it: absent
  (\<^verbatim>\<open>os.path.exists\<close> is false), present but \<^verbatim>\<open>open\<close> or \<^verbatim>\<open>json.load\<close> raises,
  holding a list of entries, or holding JSON that is not a list (an object, a number, a
  string, \<^verbatim>\<open>true\<close>, \<^verbatim>\<open>false\<close> or \<^verbatim>\<open>null\<close>), which \<^verbatim>\<open>json.load\<close> returns without
  complaint. \<open>writable\<close> says whether \<^verbatim>\<open>open(LOGS_FILE, 'w')\<close> and \<^verbatim>\<open>json.dump\<close>
  succeed.
\<close>
datatype file_state = Missing | Corrupt | Stored "log_entry list" | NotList

record journal =
  content :: file_state
  writable :: bool

text \<open>
  \<^verbatim>\<open>
  def log_activity(user_email, action, details=""):
      log_entry = {'timestamp': ..., 'user': user_email, 'action': action,
                   'details': details, 'ip': ...}
      print(...)
      logs = []
      if os.path.exists(LOGS_FILE):
          try:
              with open(LOGS_FILE, 'r') as f:
                  logs = json.load(f)
          except:
              pass
      logs.append(log_entry)
      if len(logs) > 1000:
          logs = logs[-1000:]
      with open(LOGS_FILE, 'w') as f:
          json.dump(logs, f, indent=2)
  \<close>
  The clock and the request's address are inputs. The read is inside \<^verbatim>\<open>try\<close>.
  \<^verbatim>\<open>logs.append\<close> is not: on a value that is not a list it raises AttributeError,
  before anything is written. The write is not either, so its failure reaches the caller.
\<close>
definition log_activity ::
  "string \<Rightarrow> string \<Rightarrow> journal \<Rightarrow> string \<Rightarrow> string \<Rightarrow> string \<Rightarrow> error + journal" where
  "log_activity now remote_addr j user_email act dets =
     (let entry = \<lparr>timestamp = now, user = user_email, action = act,
                    details = dets, ip = remote_addr\<rparr>;
          loaded = (case content j of
                      Missing \<Rightarrow> Inr []
                    | Corrupt \<Rightarrow> Inr []
                    | Stored l \<Rightarrow> Inr l
                    | NotList \<Rightarrow> Inl AttributeError)
      in case loaded of
           Inl e \<Rightarrow> Inl e
         | Inr logs \<Rightarrow>
             (let logs = logs @ [entry];
                  logs = (if length logs > 1000 then drop (length logs - 1000) logs else logs)
              in if writable j then Inr (j\<lparr>content := Stored logs\<rparr>) else Inl IOError))"

text \<open>A sequence of calls, each given by (actor, action, detail); it stops at the first error.\<close>
fun log_all ::
  "string \<Rightarrow> string \<Rightarrow> journal \<Rightarrow> (string \<times> string \<times> string) list \<Rightarrow> error + journal" where
  "log_all now remote_addr j [] = Inr j"
| "log_all now remote_addr j ((u, a, d) # calls) =
     (case log_activity now remote_addr j u a d of
        Inl e \<Rightarrow> Inl e
      | Inr j' \<Rightarrow> log_all now remote_addr j' calls)"

section \<open>Login\<close>

record account =
  username :: string
  password :: string
  full_name :: string
  role :: string
  created_at :: string
  last_login :: "string option"
  uploads_count :: nat

record session =
  user_email :: string
  user_name :: string
  session_full_name :: string
  session_role :: string
  permanent :: bool

text \<open>
  What a POST to \<^verbatim>\<open>/login\<close> leaves behind: the message flashed with its category, the
  endpoint redirected to, the session, the identity store and the journal.
\<close>
record reply =
  flashed :: "string \<times> string"
  redirect :: string
  session_after :: "session option"
  users_after :: "string \<rightharpoonup> account"
  journal_after :: journal

text \<open>
  \<^verbatim>\<open>
  email = request.form.get('email', '').strip().lower()
  password = request.form.get('password', '')
  if not email or not password:
      flash('Email and password are required', 'danger'); return redirect(url_for('login'))
  users = load_users()
  if email not in users:
      flash('Invalid email or password', 'danger'); return redirect(url_for('login'))
  if not verify_password(users[email]['password'], password):
      flash('Invalid email or password', 'danger'); return redirect(url_for('login'))
  users[email]['last_login'] = ...; save_users(users)
  session[...] = ...
  log_activity(email, 'LOGIN', f'Successful login from {request.remote_addr}')
  flash(f'Welcome back, {users[email]["username"]}!', 'success')
  if users[email]['role'] == 'admin': return redirect(url_for('admin_dashboard'))
  return redirect(url_for('index'))
  \<close>
  \<open>sess\<close> is the session before the request.
\<close>
definition login ::
  "(string \<Rightarrow> 8 word list) \<Rightarrow> string \<Rightarrow> string \<Rightarrow> (string \<rightharpoonup> account) \<Rightarrow> journal
     \<Rightarrow> session option \<Rightarrow> string \<Rightarrow> string \<Rightarrow> error + reply" where
  "login sha256 now remote_addr users j sess form_email form_password =
     (let email = lower (strip form_email);
          pw = form_password
      in if email = [] \<or> pw = [] then
           Inr \<lparr>flashed = (''Email and password are required'', ''danger''),
                redirect = ''login'', session_after = sess, users_after = users,
                journal_after = j\<rparr>
         else (case users email of
           None \<Rightarrow>
             Inr \<lparr>flashed = (''Invalid email or password'', ''danger''),
                  redirect = ''login'', session_after = sess, users_after = users,
                  journal_after = j\<rparr>
         | Some u \<Rightarrow>
             (case verify_password sha256 (password u) pw of
                Inl e \<Rightarrow> Inl e
              | Inr False \<Rightarrow>
                  Inr \<lparr>flashed = (''Invalid email or password'', ''danger''),
                       redirect = ''login'', session_after = sess, users_after = users,
                       journal_after = j\<rparr>
              | Inr True \<Rightarrow>
                  (let users' = users(email \<mapsto> u\<lparr>last_login := Some now\<rparr>);
                       sess' = \<lparr>user_email = email, user_name = username u,
                                session_full_name = full_name u, session_role = role u,
                                permanent = True\<rparr>
                   in case log_activity now remote_addr j email ''LOGIN''
                             (''Successful login from '' @ remote_addr) of
                        Inl e \<Rightarrow> Inl e
                      | Inr j' \<Rightarrow>
                          Inr \<lparr>flashed = (''Welcome back, '' @ username u @ ''!'', ''success''),
                               redirect = (if role u = ''admin'' then ''admin_dashboard''
                                           else ''index''),
                               session_after = Some sess', users_after = users',
                               journal_after = j'\<rparr>))))"

section \<open>Catalog loader\<close>

text \<open>
  A Python float: a real number, plus or minus infinity, or NaN.
\<close>
datatype pyfloat = Fin real | PInf | NInf | NaN

text \<open>
  A cell of a frame is used by the loader through \<^verbatim>\<open>str(cell)\<close> and
  \<^verbatim>\<open>float(cell)\<close> only, so a cell is modelled by what these two do: \<open>py_float\<close> is
  the float returned or the error raised (ValueError for a string that is no number).
  pandas reads an empty cell as NaN, the cell \<open>nan_cell\<close>.
\<close>
datatype cell = Cell (py_str: string) (py_float: "error + pyfloat")

definition nan_cell :: cell where
  "nan_cell = Cell ''nan'' (Inr NaN)"

text \<open>
  What \<^verbatim>\<open>pd.read_csv\<close> does on a file: it raises, or it returns a frame with the
  column names of the header and one list of cells per row.
\<close>
datatype csv_file = Unparsable | Table "string list" "cell list list"

text \<open>
  What \<^verbatim>\<open>row[k]\<close> returns: the cell under the column \<open>k\<close> when one column has this
  label, and a Series of the cells under them when several columns have it, which happens
  when the names of two columns are the same once lowered and stripped.
\<close>
datatype pyvalue = Scalar cell | Series "cell list"

text \<open>
  \<^verbatim>\<open>str\<close> of a Series is the text that pandas prints for it, a library function of
  the number of the row, the label and the cells: a parameter of the loader.
\<close>
type_synonym series_repr = "nat \<Rightarrow> string \<Rightarrow> cell list \<Rightarrow> string"

record product =
  product_id :: nat
  name :: string
  category :: string
  store :: string
  price :: pyfloat
  currency :: string
  url :: string
  rating :: pyvalue
  brand :: string
  model_id :: string
  stock :: string
  discount_percent :: pyvalue
  description :: string
  image_url :: string

text \<open>
  The cells of a row under the columns labelled \<open>k\<close>, from left to right. A line shorter
  than the header is filled with NaN by pandas.
\<close>
fun cells_under :: "string list \<Rightarrow> cell list \<Rightarrow> string \<Rightarrow> cell list" where
  "cells_under [] cells k = []"
| "cells_under (c # cs) [] k =
     (if c = k then nan_cell # cells_under cs [] k else cells_under cs [] k)"
| "cells_under (c # cs) (v # vs) k =
     (if c = k then v # cells_under cs vs k else cells_under cs vs k)"

text \<open>
  \<^verbatim>\<open>row[k]\<close> and \<^verbatim>\<open>row.get(k)\<close> on a row whose index is the frame's columns; \<open>None\<close>
  when no column has the label (\<^verbatim>\<open>row[k]\<close> raises KeyError, \<^verbatim>\<open>row.get\<close> returns its
  default).
\<close>
definition row_get :: "string list \<Rightarrow> cell list \<Rightarrow> string \<Rightarrow> pyvalue option" where
  "row_get cols row k =
     (case cells_under cols row k of
        [] \<Rightarrow> None
      | [c] \<Rightarrow> Some (Scalar c)
      | c # d # cs \<Rightarrow> Some (Series (c # d # cs)))"

text \<open>\<^verbatim>\<open>str(v)\<close> for a value taken from row number \<open>i\<close> under the label \<open>k\<close>.\<close>
definition str_of :: "series_repr \<Rightarrow> nat \<Rightarrow> string \<Rightarrow> pyvalue \<Rightarrow> string" where
  "str_of series_str i k v =
     (case v of Scalar c \<Rightarrow> py_str c | Series cs \<Rightarrow> series_str i k cs)"

text \<open>\<^verbatim>\<open>float(v)\<close>: on a Series of several cells it raises TypeError.\<close>
definition float_of :: "pyvalue \<Rightarrow> error + pyfloat" where
  "float_of v = (case v of Scalar c \<Rightarrow> py_float c | Series cs \<Rightarrow> Inl TypeError)"

text \<open>\<^verbatim>\<open>str(row.get(k, d))\<close> for a default \<open>d\<close> that is a string.\<close>
definition get_str ::
  "series_repr \<Rightarrow> string list \<Rightarrow> nat \<Rightarrow> cell list \<Rightarrow> string \<Rightarrow> string \<Rightarrow> string" where
  "get_str series_str cols i row k d =
     (case row_get cols row k of None \<Rightarrow> d | Some v \<Rightarrow> str_of series_str i k v)"

text \<open>\<^verbatim>\<open>row.get(k, d)\<close>\<close>
definition get_value :: "string list \<Rightarrow> cell list \<Rightarrow> string \<Rightarrow> pyvalue \<Rightarrow> pyvalue" where
  "get_value cols row k d = (case row_get cols row k of None \<Rightarrow> d | Some v \<Rightarrow> v)"

text \<open>
  \<^verbatim>\<open>os.path.splitext(filename)[0]\<close> for a name without directory separators: the
  name up to its last dot, unless only dots come before that dot.
\<close>
definition splitext_root :: "string \<Rightarrow> string" where
  "splitext_root p =
     (if CHR ''.'' \<notin> set p then p
      else (let ext = takeWhile (\<lambda>c. c \<noteq> CHR ''.'') (rev p);
                stem = take (length p - length ext - 1) p
            in if \<exists>c \<in> set stem. c \<noteq> CHR ''.'' then stem else p))"

text \<open>
  The dictionary that the row loop builds for row number \<open>i\<close>; \<open>next_id\<close> is
  \<^verbatim>\<open>len(products_list) + 1\<close>. The entries are evaluated in this order, and the first
  error ends the construction: \<^verbatim>\<open>row['name']\<close> and \<^verbatim>\<open>row['price']\<close> raise KeyError
  without the column, \<^verbatim>\<open>float\<close> raises its own error.
  \<^verbatim>\<open>
  {"id": len(products_list) + 1,
   "name": str(row['name']).strip(),
   "category": str(row.get('category', 'unknown')).lower(),
   "store": store_name,
   "price": float(row['price']),
   "currency": (the rupee sign, U+20B9; its UTF-8 bytes in the model),
   "url": str(row.get('url', '#')),
   "rating": row.get('rating', '4.0'),
   "brand": str(row.get('brand', 'Generic')).title(),
   "model_id": str(row.get('model_id', 'N/A')),
   "stock": str(row.get('stock', 'In Stock')),
   "discount_percent": row.get('discount_percent', 0),
   "description": str(row.get('description', 'No description available.')),
   "image_url": str(row.get('image_url', ''))}
  \<close>
\<close>
definition make_product ::
  "series_repr \<Rightarrow> string \<Rightarrow> string list \<Rightarrow> nat \<Rightarrow> cell list \<Rightarrow> nat \<Rightarrow> error + product" where
  "make_product series_str store_name cols i row next_id =
     (case row_get cols row ''name'' of
        None \<Rightarrow> Inl KeyError
      | Some n \<Rightarrow>
          (case row_get cols row ''price'' of
             None \<Rightarrow> Inl KeyError
           | Some p \<Rightarrow>
               (case float_of p of
                  Inl e \<Rightarrow> Inl e
                | Inr pr \<Rightarrow>
                    Inr \<lparr>product_id = next_id,
                         name = strip (str_of series_str i ''name'' n),
                         category = lower (get_str series_str cols i row ''category'' ''unknown''),
                         store = store_name,
                         price = pr,
                         currency = [CHR 0xE2, CHR 0x82, CHR 0xB9],
                         url = get_str series_str cols i row ''url'' ''#'',
                         rating = get_value cols row ''rating''
                                    (Scalar (Cell ''4.0'' (Inr (Fin 4)))),
                         brand = title (get_str series_str cols i row ''brand'' ''Generic''),
                         model_id = get_str series_str cols i row ''model_id'' ''N/A'',
                         stock = get_str series_str cols i row ''stock'' ''In Stock'',
                         discount_percent = get_value cols row ''discount_percent''
                                              (Scalar (Cell ''0'' (Inr (Fin 0)))),
                         description = get_str series_str cols i row ''description''
                                         ''No description available.'',
                         image_url = get_str series_str cols i row ''image_url'' []\<rparr>)))"

text \<open>
  The loop \<^verbatim>\<open>for _, row in df.iterrows()\<close>, inside the \<^verbatim>\<open>try\<close> of one file, from
  row number \<open>i\<close> on. \<open>cols\<close> are the normalised column names, \<open>acc\<close> is
  \<^verbatim>\<open>products_list\<close>. The result is the exception that ended the loop, if any, and
  \<^verbatim>\<open>products_list\<close> as the loop left it.
  \<^verbatim>\<open>
  if 'name' not in row or 'price' not in row:
      continue
  products_list.append({...})
  \<close>
  \<^verbatim>\<open>'name' in row\<close> tests the row's index, that is the frame's columns. The dictionary
  is built before it is appended, so a row whose \<^verbatim>\<open>float(row['price'])\<close> raises
  appends nothing.
\<close>
fun load_rows ::
  "series_repr \<Rightarrow> string \<Rightarrow> string list \<Rightarrow> nat \<Rightarrow> cell list list \<Rightarrow> product list
     \<Rightarrow> error option \<times> product list" where
  "load_rows series_str store_name cols i [] acc = (None, acc)"
| "load_rows series_str store_name cols i (row # rows) acc =
     (if ''name'' \<notin> set cols \<or> ''price'' \<notin> set cols
      then load_rows series_str store_name cols (Suc i) rows acc
      else (case make_product series_str store_name cols i row (length acc + 1) of
              Inl e \<Rightarrow> (Some e, acc)
            | Inr p \<Rightarrow> load_rows series_str store_name cols (Suc i) rows (acc @ [p])))"

text \<open>
  One turn of \<^verbatim>\<open>for filename in csv_files\<close>: \<^verbatim>\<open>pd.read_csv\<close>, the columns lowered
  and stripped, then the rows.
\<close>
definition load_file ::
  "series_repr \<Rightarrow> string \<times> csv_file \<Rightarrow> product list \<Rightarrow> error option \<times> product list" where
  "load_file series_str f acc =
     (case snd f of
        Unparsable \<Rightarrow> (Some ParserError, acc)
      | Table columns rows \<Rightarrow>
          load_rows series_str (title (splitext_root (fst f)))
            (map (\<lambda>c. strip (lower c)) columns) 0 rows acc)"

text \<open>
  The loop over the files. \<^verbatim>\<open>except Exception\<close> prints the error and the loop goes on
  with what \<^verbatim>\<open>products_list\<close> holds.
\<close>
fun load_files ::
  "series_repr \<Rightarrow> (string \<times> csv_file) list \<Rightarrow> product list \<Rightarrow> product list" where
  "load_files series_str [] acc = acc"
| "load_files series_str (f # fs) acc = load_files series_str fs (snd (load_file series_str f acc))"

text \<open>
  \<^verbatim>\<open>load_product_database\<close>. The directory is the list of its entries in the order
  of \<^verbatim>\<open>os.listdir\<close>, each with what \<^verbatim>\<open>pd.read_csv\<close> does on it.
\<close>
definition load_product_database ::
  "series_repr \<Rightarrow> (string \<times> csv_file) list \<Rightarrow> product list" where
  "load_product_database series_str dir =
     (let csv_files = filter (\<lambda>f. endswith (fst f) ''.csv'') dir
      in if csv_files = [] then [] else load_files series_str csv_files [])"

section \<open>Matching and ranking\<close>

text \<open>
  \<^verbatim>\<open>
  for word in key_words:
      if word and word in target_str:
          key_match = True
          break
  \<close>
\<close>
fun any_word_in :: "string list \<Rightarrow> string \<Rightarrow> bool" where
  "any_word_in [] target = False"
| "any_word_in (word # key_words) target =
     (if word \<noteq> [] \<and> sublist word target then True
      else any_word_in key_words target)"

text \<open>\<^verbatim>\<open>f"{product['name']} {product['brand']} {product['category']}".lower()\<close>\<close>
definition target_str :: "product \<Rightarrow> string" where
  "target_str p = lower (name p @ '' '' @ brand p @ '' '' @ category p)"

text \<open>
  The loop \<^verbatim>\<open>for product in PRODUCT_DATABASE\<close> of \<^verbatim>\<open>process\<close>. \<open>keywords\<close> is the
  form field already lowered and stripped, \<open>prediction\<close> is
  \<^verbatim>\<open>ai_category_prediction\<close>.
\<close>
fun find_matches :: "string \<Rightarrow> string \<Rightarrow> product list \<Rightarrow> product list" where
  "find_matches prediction keywords [] = []"
| "find_matches prediction keywords (p # ps) =
     (let p_cat = lower (category p);
          cat_match = (sublist (lower prediction) p_cat \<or> sublist p_cat (lower prediction));
          key_match = (if keywords \<noteq> [] then any_word_in (split_ws keywords) (target_str p)
                       else False);
          rest = find_matches prediction keywords ps
      in if keywords \<noteq> [] then (if key_match then p # rest else rest)
         else (if cat_match then p # rest else rest))"

text \<open>
  Python compares floats as the extended reals, and every comparison with NaN is false.
  \<open>rank\<close> places a float that is not NaN in that order.
\<close>
definition rank :: "pyfloat \<Rightarrow> int \<times> real" where
  "rank x = (case x of NInf \<Rightarrow> (- 1, 0) | Fin r \<Rightarrow> (0, r) | PInf \<Rightarrow> (1, 0) | NaN \<Rightarrow> (2, 0))"

text \<open>\<^verbatim>\<open>a < b\<close> on floats.\<close>
definition py_lt :: "pyfloat \<Rightarrow> pyfloat \<Rightarrow> bool" where
  "py_lt a b = (a \<noteq> NaN \<and> b \<noteq> NaN \<and> rank a < rank b)"


text \<open>
  No key is less than the key before it: \<^verbatim>\<open>list.sort\<close> starts by reading the run at
  the head of the list, which goes on as long as this holds.
\<close>
fun no_descent :: "pyfloat list \<Rightarrow> bool" where
  "no_descent (x # y # zs) = (\<not> py_lt y x \<and> no_descent (y # zs))"
| "no_descent zs = True"

text \<open>
  \<^verbatim>\<open>matches.sort(key=lambda x: x['price'])\<close>: Python's sort is stable and compares the
  keys with \<^verbatim>\<open><\<close>. On keys without NaN, which \<^verbatim>\<open><\<close> orders linearly, it is the stable
  sort. A list in which no key is less than the key before it is one run for
  \<^verbatim>\<open>list.sort\<close>, which leaves it as it is: so it is with NaN among the keys too,
  where that test says little about the order. With NaN among the keys and a key less
  than the one before it, the outcome depends on the further comparisons that the sorting
  algorithm makes: that case is outside the model, \<open>None\<close>.
\<close>
definition sort_by_price :: "product list \<Rightarrow> product list option" where
  "sort_by_price ms =
     (if list_all (\<lambda>m. price m \<noteq> NaN) ms then Some (sort_key (\<lambda>m. rank (price m)) ms)
      else if no_descent (map price ms) then Some ms
      else None)"

record search_result =
  matches :: "product list"
  global_best_price :: "pyfloat option"

text \<open>
  The matching part of \<^verbatim>\<open>process\<close>:
  \<^verbatim>\<open>
  keywords = request.form.get('keywords', '').lower().strip()
  ...
  if matches:
      matches.sort(key=lambda x: x['price'])
      global_best_price = matches[0]['price']
  else:
      global_best_price = None
  \<close>
\<close>
definition process_matches :: "product list \<Rightarrow> string \<Rightarrow> string \<Rightarrow> search_result option" where
  "process_matches catalog prediction form_keywords =
     (let keywords = strip (lower form_keywords);
          found = find_matches prediction keywords catalog
      in case found of
           [] \<Rightarrow> Some \<lparr>matches = [], global_best_price = None\<rparr>
         | _ # _ \<Rightarrow>
             (case sort_by_price found of
                None \<Rightarrow> None
              | Some [] \<Rightarrow> None
              | Some (m # ms) \<Rightarrow> Some \<lparr>matches = m # ms, global_best_price = Some (price m)\<rparr>))"

section \<open>Outcomes and example inputs\<close>

text \<open>
  The reply of \<^verbatim>\<open>login\<close> that rejects the credentials: the message
  \<^verbatim>\<open>'Invalid email or password'\<close> in category \<^verbatim>\<open>'danger'\<close>, a redirect to the login
  page, and session, identity store and journal left as they were.
\<close>
definition invalid_credentials ::
  "(string \<rightharpoonup> account) \<Rightarrow> journal \<Rightarrow> session option \<Rightarrow> reply" where
  "invalid_credentials users j sess =
     \<lparr>flashed = (''Invalid email or password'', ''danger''), redirect = ''login'',
      session_after = sess, users_after = users, journal_after = j\<rparr>"

definition ex_users :: "string \<rightharpoonup> account" where
  "ex_users = [''a@b.c'' \<mapsto> \<lparr>username = ''ann'', password = ''ab:cd'', full_name = ''Ann'',
      role = ''user'', created_at = ''2025'', last_login = None, uploads_count = 0\<rparr>]"

definition ex_journal :: journal where
  "ex_journal = \<lparr>content = Missing, writable = True\<rparr>"

text \<open>A journal file that holds no entry and cannot be written.\<close>
definition ex_readonly :: journal where
  "ex_readonly = \<lparr>content = Stored [], writable = False\<rparr>"

text \<open>A journal file that can be written and holds a JSON object.\<close>
definition ex_object :: journal where
  "ex_object = \<lparr>content = NotList, writable = True\<rparr>"

text \<open>The entry that one call of \<^verbatim>\<open>log_activity\<close> builds from (actor, action, detail).\<close>
definition make_entry :: "string \<Rightarrow> string \<Rightarrow> string \<times> string \<times> string \<Rightarrow> log_entry" where
  "make_entry now remote_addr call =
     (case call of (u, a, d) \<Rightarrow>
        \<lparr>timestamp = now, user = u, action = a, details = d, ip = remote_addr\<rparr>)"

text \<open>
  The entries that the journal holds for \<^verbatim>\<open>log_activity\<close>: those of the list read, none
  when the file is absent, when the read raised or when the file holds no list.
\<close>
definition read_logs :: "journal \<Rightarrow> log_entry list" where
  "read_logs j =
     (case content j of Stored l \<Rightarrow> l | Missing \<Rightarrow> [] | Corrupt \<Rightarrow> [] | NotList \<Rightarrow> [])"

text \<open>Everything recorded so far: what the journal held, then the entries of the calls.\<close>
definition history ::
  "string \<Rightarrow> string \<Rightarrow> journal \<Rightarrow> (string \<times> string \<times> string) list \<Rightarrow> log_entry list" where
  "history now remote_addr j calls = read_logs j @ map (make_entry now remote_addr) calls"

definition ex_entry :: log_entry where
  "ex_entry = \<lparr>timestamp = ''t0'', user = ''old'', action = ''LOGIN'', details = [], ip = ''ip''\<rparr>"

section \<open>Notions used to state the loader's properties\<close>

text \<open>The \<^verbatim>\<open>.csv\<close> entries of the directory, as \<^verbatim>\<open>load_product_database\<close> selects them.\<close>
definition csv_files :: "(string \<times> csv_file) list \<Rightarrow> (string \<times> csv_file) list" where
  "csv_files dir = filter (\<lambda>f. endswith (fst f) ''.csv'') dir"

text \<open>\<^verbatim>\<open>df.columns.str.lower().str.strip()\<close>\<close>
definition normalise :: "string list \<Rightarrow> string list" where
  "normalise columns = map (\<lambda>c. strip (lower c)) columns"

text \<open>The guard of the row loop lets the rows of a frame through: both columns are there.\<close>
definition has_required :: "string list \<Rightarrow> bool" where
  "has_required cols = (''name'' \<in> set cols \<and> ''price'' \<in> set cols)"

text \<open>The error that \<^verbatim>\<open>float(row['price'])\<close> raises on this row, if it raises.\<close>
definition row_error :: "string list \<Rightarrow> cell list \<Rightarrow> error option" where
  "row_error cols row =
     (case row_get cols row ''price'' of
        None \<Rightarrow> None
      | Some v \<Rightarrow> (case float_of v of Inl e \<Rightarrow> Some e | Inr pr \<Rightarrow> None))"

text \<open>\<^verbatim>\<open>float(row['price'])\<close> does not raise on this row.\<close>
definition row_converts :: "string list \<Rightarrow> cell list \<Rightarrow> bool" where
  "row_converts cols row = (row_error cols row = None)"

text \<open>The error of the first row on which \<^verbatim>\<open>float(row['price'])\<close> raises, if there is one.\<close>
definition first_error :: "string list \<Rightarrow> cell list list \<Rightarrow> error option" where
  "first_error cols rows =
     (case dropWhile (row_converts cols) rows of [] \<Rightarrow> None | row # rest \<Rightarrow> row_error cols row)"

text \<open>
  The number of rows of a file that pass the guard of the row loop: all rows of a frame
  with both columns, none otherwise.
\<close>
definition rows_with_columns :: "string \<times> csv_file \<Rightarrow> nat" where
  "rows_with_columns f =
     (case snd f of
        Unparsable \<Rightarrow> 0
      | Table columns rows \<Rightarrow> (if has_required (normalise columns) then length rows else 0))"

text \<open>
  Following the specification's words: a row supplies a field when the frame has the column
  and a cell of the row under it is not the missing value.
\<close>
definition supplies :: "string list \<Rightarrow> cell list \<Rightarrow> string \<Rightarrow> bool" where
  "supplies cols row k = list_ex (\<lambda>c. c \<noteq> nan_cell) (cells_under cols row k)"

text \<open>
  Following the specification's words: the number of rows of a file that supply both a
  name and a price.
\<close>
definition rows_supplying_both :: "string \<times> csv_file \<Rightarrow> nat" where
  "rows_supplying_both f =
     (case snd f of
        Unparsable \<Rightarrow> 0
      | Table columns rows \<Rightarrow>
          length (filter (\<lambda>row. supplies (normalise columns) row ''name''
                              \<and> supplies (normalise columns) row ''price'') rows))"

text \<open>A directory in which the processing of no \<^verbatim>\<open>.csv\<close> file raises.\<close>
definition loads_cleanly :: "series_repr \<Rightarrow> (string \<times> csv_file) list \<Rightarrow> bool" where
  "loads_cleanly series_str dir =
     list_all (\<lambda>f. fst (load_file series_str f []) = None) (csv_files dir)"

text \<open>
  The rows of a frame, numbered from \<open>i\<close>, up to the first row on which
  \<^verbatim>\<open>float(row['price'])\<close> raises, each with the store name, the normalised columns and
  its number.
\<close>
definition rows_from ::
  "string \<Rightarrow> string list \<Rightarrow> nat \<Rightarrow> cell list list
     \<Rightarrow> (string \<times> string list \<times> nat \<times> cell list) list" where
  "rows_from store_name cols i rows =
     map (\<lambda>(j, row). (store_name, cols, j, row))
       (takeWhile (\<lambda>(j, row). row_converts cols row) (enumerate i rows))"

text \<open>
  The rows of a file that give a record: the rows of a frame with both columns up to the
  first row on which \<^verbatim>\<open>float(row['price'])\<close> raises; none for a file that
  \<^verbatim>\<open>read_csv\<close> rejects or that lacks a column.
\<close>
definition file_rows :: "string \<times> csv_file \<Rightarrow> (string \<times> string list \<times> nat \<times> cell list) list" where
  "file_rows f =
     (case snd f of
        Unparsable \<Rightarrow> []
      | Table columns rows \<Rightarrow>
          (if has_required (normalise columns)
           then rows_from (title (splitext_root (fst f))) (normalise columns) 0 rows
           else []))"

text \<open>
  The error that ends the processing of a file, if one does: that of \<^verbatim>\<open>read_csv\<close>, or
  that of the first row on which \<^verbatim>\<open>float(row['price'])\<close> raises in a frame with both
  columns.
\<close>
definition file_error :: "string \<times> csv_file \<Rightarrow> error option" where
  "file_error f =
     (case snd f of
        Unparsable \<Rightarrow> Some ParserError
      | Table columns rows \<Rightarrow>
          (if has_required (normalise columns) then first_error (normalise columns) rows
           else None))"

text \<open>
  The rows of the directory that give a record, file after file in the order of the
  directory and, within a file, row after row.
\<close>
definition accepted_rows ::
  "(string \<times> csv_file) list \<Rightarrow> (string \<times> string list \<times> nat \<times> cell list) list" where
  "accepted_rows dir = concat (map file_rows (csv_files dir))"

text \<open>
  The dictionary built for the accepted row at position \<open>k\<close>, counted from 0, of a list of
  accepted rows: its identifier is \<open>k + 1\<close>.
\<close>
definition record_at ::
  "series_repr \<Rightarrow> nat \<times> string \<times> string list \<times> nat \<times> cell list \<Rightarrow> error + product" where
  "record_at series_str a =
     (case a of (k, store_name, cols, i, row) \<Rightarrow>
        make_product series_str store_name cols i row (Suc k))"

text \<open>A text for every Series, for the examples.\<close>
definition ex_series_str :: series_repr where
  "ex_series_str i k cs = ''Series''"

text \<open>A file whose second row has an empty name cell.\<close>
definition ex_shop :: "string \<times> csv_file" where
  "ex_shop = (''shop.csv'', Table [''Name'', ''Price '']
      [[Cell ''Phone'' (Inl ValueError), Cell ''100'' (Inr (Fin 100))],
       [nan_cell, Cell ''200'' (Inr (Fin 200))]])"

text \<open>A file whose second row has a price that \<^verbatim>\<open>float\<close> rejects.\<close>
definition ex_bad :: "string \<times> csv_file" where
  "ex_bad = (''bad.csv'', Table [''name'', ''price'']
      [[Cell ''Phone'' (Inl ValueError), Cell ''100'' (Inr (Fin 100))],
       [Cell ''Case'' (Inl ValueError), Cell ''abc'' (Inl ValueError)],
       [Cell ''Cable'' (Inl ValueError), Cell ''5'' (Inr (Fin 5))]])"

text \<open>A file with two columns that are both \<^verbatim>\<open>price\<close> once lowered and stripped.\<close>
definition ex_twins :: "string \<times> csv_file" where
  "ex_twins = (''twins.csv'', Table [''name'', ''Price'', ''price'']
      [[Cell ''Phone'' (Inl ValueError), Cell ''100'' (Inr (Fin 100)), Cell ''90'' (Inr (Fin 90))],
       [Cell ''Case'' (Inl ValueError), Cell ''20'' (Inr (Fin 20)), Cell ''10'' (Inr (Fin 10))]])"

text \<open>A file with a category column whose second row has an empty price cell.\<close>
definition ex_gaps :: "string \<times> csv_file" where
  "ex_gaps = (''gaps.csv'', Table [''name'', ''category'', ''price'']
      [[Cell ''Phone A'' (Inl ValueError), Cell ''smartphone'' (Inl ValueError),
        Cell ''5.0'' (Inr (Fin 5))],
       [Cell ''Phone B'' (Inl ValueError), Cell ''smartphone'' (Inl ValueError), nan_cell],
       [Cell ''Phone C'' (Inl ValueError), Cell ''smartphone'' (Inl ValueError),
        Cell ''1.0'' (Inr (Fin 1))]])"

text \<open>A directory with a second \<^verbatim>\<open>.csv\<close> file that has no price column, and a text file.\<close>
definition ex_dir :: "(string \<times> csv_file) list" where
  "ex_dir = [ex_shop, (''notes.txt'', Unparsable),
             (''misc.csv'', Table [''name''] [[Cell ''Cable'' (Inl ValueError)]])]"

text \<open>
  A directory with four \<^verbatim>\<open>.csv\<close> files: two that give records, between them one that
  \<^verbatim>\<open>read_csv\<close> rejects and one whose second row raises.
\<close>
definition ex_stores :: "(string \<times> csv_file) list" where
  "ex_stores = [ex_shop, (''broken.csv'', Unparsable), ex_bad, ex_gaps]"

section \<open>Notions used to state the properties of matching\<close>

text \<open>Some token of the keywords occurs in the record's target string.\<close>
definition keyword_hit :: "string \<Rightarrow> product \<Rightarrow> bool" where
  "keyword_hit keywords p = list_ex (\<lambda>word. sublist word (target_str p)) (split_ws keywords)"

text \<open>
  Following the specification's words: some token of the keywords occurs in the
  concatenation of name, brand and category, case-folded.
\<close>
definition claimed_keyword_hit :: "string \<Rightarrow> product \<Rightarrow> bool" where
  "claimed_keyword_hit keywords p =
     list_ex (\<lambda>word. sublist word (lower (name p @ brand p @ category p))) (split_ws keywords)"

text \<open>
  The category contains the label or the label contains the category, both case-folded.
\<close>
definition category_hit :: "string \<Rightarrow> product \<Rightarrow> bool" where
  "category_hit prediction p =
     (sublist (lower prediction) (lower (category p))
      \<or> sublist (lower (category p)) (lower prediction))"

text \<open>No price of the catalog is NaN.\<close>
definition no_nan :: "product list \<Rightarrow> bool" where
  "no_nan catalog = list_all (\<lambda>p. price p \<noteq> NaN) catalog"



text \<open>A catalog record with the given identifier, name, brand, category and price.\<close>
definition ex_item :: "nat \<Rightarrow> string \<Rightarrow> string \<Rightarrow> string \<Rightarrow> real \<Rightarrow> product" where
  "ex_item i n b c pr =
     \<lparr>product_id = i, name = n, category = c, store = ''Shop'', price = Fin pr,
      currency = [CHR 0xE2, CHR 0x82, CHR 0xB9], url = ''#'',
      rating = Scalar (Cell ''4.0'' (Inr (Fin 4))), brand = b, model_id = ''N/A'',
      stock = ''In Stock'', discount_percent = Scalar (Cell ''0'' (Inr (Fin 0))),
      description = ''No description available.'', image_url = []\<rparr>"

definition ex_catalog :: "product list" where
  "ex_catalog =
     [ex_item 1 ''Phone A'' ''Apple'' ''smartphone'' 999,
      ex_item 2 ''Phone B'' ''Samsung'' ''smartphone'' 849,
      ex_item 3 ''Air Max'' ''Nike'' ''shoes'' 150,
      ex_item 4 ''Phone C'' ''Sony'' ''smartphone'' 849]"

section \<open>Properties of the string functions\<close>

lemma split_on_no_sep: "sep \<notin> set s \<Longrightarrow> split_on sep s = [s]"
  by (induction s) auto

lemma split_on_append_sep:
  "sep \<notin> set a \<Longrightarrow> split_on sep (a @ sep # b) = a # split_on sep b"
  by (induction a) auto

lemma hex_digit_not_colon: "n < 16 \<Longrightarrow> hex_digit n \<noteq> CHR '':''"
proof -
  assume "n < 16"
  have "of_char (hex_digit n) \<noteq> (58 :: nat)"
    using \<open>n < 16\<close> by (auto simp: hex_digit_def)
  then show ?thesis by auto
qed

lemma colon_notin_hex_byte: "CHR '':'' \<notin> set (hex_byte b)"
proof -
  have "unat b div 16 < 16"
    using unsigned_less [of b, where ?'a = nat] by (simp add: less_mult_imp_div_less)
  then have "hex_digit (unat b div 16) \<noteq> CHR '':''"
    by (rule hex_digit_not_colon)
  moreover have "hex_digit (unat b mod 16) \<noteq> CHR '':''"
    by (rule hex_digit_not_colon) simp
  ultimately show ?thesis
    by (simp add: hex_byte_def)
qed

lemma colon_notin_hex: "CHR '':'' \<notin> set (hex bs)"
  using colon_notin_hex_byte by (auto simp: hex_def)

section \<open>Passwords and login\<close>

text \<open>
  C10. For every password, every digest function and all random bytes of the salt,
  verifying the password against the stored form that \<open>hash_password\<close> made of it succeeds:
  salt and digest are hexadecimal, so the stored form splits at its one colon into exactly
  these two.
\<close>
theorem verify_hash_roundtrip:
  "verify_password sha256 (hash_password sha256 rnd p) p = Inr True"
proof -
  let ?salt = "hex rnd"
  let ?h = "hexdigest sha256 (?salt @ p)"
  have "split_on CHR '':'' (?salt @ CHR '':'' # ?h) = ?salt # split_on CHR '':'' ?h"
    by (rule split_on_append_sep) (rule colon_notin_hex)
  also have "split_on CHR '':'' ?h = [?h]"
    by (rule split_on_no_sep) (simp add: hexdigest_def colon_notin_hex)
  finally show ?thesis
    by (simp add: verify_password_def hash_password_def Let_def)
qed

text \<open>
  C9. On the same identity store, a login with an email that is not in the store and a
  login with an email that is in the store but a password that \<open>verify_password\<close> rejects
  end in the same reply, \<open>invalid_credentials\<close>: same message and category, same redirect,
  and session, store and journal unchanged. Both requests pass the check that email and
  password are not empty.
\<close>
theorem login_failures_identical:
  assumes "lower (strip e1) \<noteq> []" and "pw1 \<noteq> []"
    and "users (lower (strip e1)) = None"
    and "lower (strip e2) \<noteq> []" and "pw2 \<noteq> []"
    and "users (lower (strip e2)) = Some u"
    and "verify_password sha256 (password u) pw2 = Inr False"
  shows "login sha256 now addr users j sess e1 pw1 = Inr (invalid_credentials users j sess)
       \<and> login sha256 now addr users j sess e2 pw2 = Inr (invalid_credentials users j sess)"
  using assms by (simp add: login_def invalid_credentials_def)

theorem login_failures_identical_witness:
  "login (\<lambda>s. []) ''now'' ''ip'' ex_users ex_journal None ''x@y.z'' ''pw''
     = Inr (invalid_credentials ex_users ex_journal None)
   \<and> login (\<lambda>s. []) ''now'' ''ip'' ex_users ex_journal None '' A@b.C '' ''wrong''
     = Inr (invalid_credentials ex_users ex_journal None)"
proof -
  have e1: "lower (strip ''x@y.z'') = ''x@y.z''"
    by code_simp
  have e2: "lower (strip '' A@b.C '') = ''a@b.c''"
    by code_simp
  have v: "verify_password (\<lambda>s. []) ''ab:cd'' ''wrong'' = Inr False"
    by (simp add: verify_password_def hexdigest_def hex_def)
  show ?thesis
    using login_failures_identical [of "''x@y.z''" "''pw''" ex_users "'' A@b.C ''" "''wrong''"
        "the (ex_users ''a@b.c'')" "\<lambda>s. []" "''now''" "''ip''" ex_journal None]
    by (simp add: e1 e2 v ex_users_def)
qed

section \<open>Activity log\<close>

lemma log_activity_eq:
  "log_activity now addr j u a d =
     (if content j = NotList then Inl AttributeError
      else if writable j
      then Inr (j\<lparr>content := Stored (drop (length (read_logs j @ [make_entry now addr (u, a, d)]) - 1000)
                                        (read_logs j @ [make_entry now addr (u, a, d)]))\<rparr>)
      else Inl IOError)"
  by (cases "content j") (simp_all add: log_activity_def read_logs_def make_entry_def Let_def)

lemma drop_as_take: "drop (length xs - k) xs = rev (take k (rev xs))"
  by (simp add: take_rev)

lemma keep_last_append:
  "drop (length (drop (length xs - k) xs @ ys) - k) (drop (length xs - k) xs @ ys)
     = drop (length (xs @ ys) - k) (xs @ ys)"
proof -
  have "take k (rev ys @ take k (rev xs)) = take k (rev ys @ rev xs)"
    by (simp add: min_def)
  then show ?thesis
    unfolding drop_as_take by simp
qed

lemma log_all_history:
  assumes "writable j" and "content j \<noteq> NotList"
  shows "log_all now addr j (c # calls) =
     Inr (j\<lparr>content := Stored (drop (length (history now addr j (c # calls)) - 1000)
                                   (history now addr j (c # calls)))\<rparr>)"
  using assms
proof (induction calls arbitrary: j c)
  case Nil
  then show ?case
    by (cases c) (simp add: log_activity_eq history_def)
next
  case (Cons c' calls)
  obtain u a d where c: "c = (u, a, d)" by (cases c)
  let ?l0 = "read_logs j @ [make_entry now addr c]"
  let ?l1 = "drop (length ?l0 - 1000) ?l0"
  let ?j1 = "j\<lparr>content := Stored ?l1\<rparr>"
  let ?es = "map (make_entry now addr) (c' # calls)"
  have w: "writable ?j1" using Cons.prems by simp
  have nl: "content ?j1 \<noteq> NotList" by simp
  have step: "log_all now addr j (c # c' # calls) = log_all now addr ?j1 (c' # calls)"
    using Cons.prems by (simp add: c log_activity_eq)
  have r: "read_logs ?j1 = ?l1" by (simp add: read_logs_def)
  have h1: "history now addr ?j1 (c' # calls) = ?l1 @ ?es"
    unfolding history_def r ..
  have h0: "history now addr j (c # c' # calls) = ?l0 @ ?es"
    by (simp add: history_def)
  have "log_all now addr j (c # c' # calls) =
     Inr (?j1\<lparr>content := Stored (drop (length (?l1 @ ?es) - 1000) (?l1 @ ?es))\<rparr>)"
    unfolding step Cons.IH [OF w nl, of c'] h1 ..
  also have "drop (length (?l1 @ ?es) - 1000) (?l1 @ ?es) = drop (length (?l0 @ ?es) - 1000) (?l0 @ ?es)"
    by (rule keep_last_append)
  finally show ?case
    unfolding h0 by simp
qed

lemma login_propagates_log_failure:
  assumes "lower (strip form_email) \<noteq> []" and "pw \<noteq> []"
    and "users (lower (strip form_email)) = Some u"
    and "verify_password sha256 (password u) pw = Inr True"
    and "log_activity now addr j (lower (strip form_email)) ''LOGIN''
           (''Successful login from '' @ addr) = Inl e"
  shows "login sha256 now addr users j sess form_email pw = Inl e"
  using assms by (simp add: login_def Let_def)

text \<open>
  C7, as the code has it. A failed read is swallowed: when the journal file is absent or
  unreadable the journal restarts from the empty list. When the file holds a list, is
  absent or is unreadable, \<open>log_activity\<close> returns normally if the write succeeds, and
  raises the error of the write, which is not caught, if it fails. When the file holds
  JSON that is not a list, \<open>log_activity\<close> raises AttributeError, whether or not the file
  can be written.
\<close>
theorem log_activity_outcome:
  "(content j = NotList \<longrightarrow> log_activity now addr j u a d = Inl AttributeError)
   \<and> (content j \<noteq> NotList \<and> writable j \<longrightarrow>
      log_activity now addr j u a d =
        Inr (j\<lparr>content := Stored (drop (length (read_logs j) + 1 - 1000)
                                      (read_logs j @ [make_entry now addr (u, a, d)]))\<rparr>))
   \<and> (content j \<noteq> NotList \<and> \<not> writable j \<longrightarrow> log_activity now addr j u a d = Inl IOError)"
  by (simp add: log_activity_eq)

theorem log_activity_outcome_witness:
  "log_activity ''t1'' ''ip'' \<lparr>content = Corrupt, writable = True\<rparr> ''ann'' ''SEARCH'' ''x''
     = Inr \<lparr>content = Stored [make_entry ''t1'' ''ip'' (''ann'', ''SEARCH'', ''x'')], writable = True\<rparr>
   \<and> log_activity ''t1'' ''ip'' \<lparr>content = Stored [], writable = False\<rparr> ''ann'' ''SEARCH'' ''x''
     = Inl IOError
   \<and> log_activity ''t1'' ''ip'' \<lparr>content = NotList, writable = False\<rparr> ''ann'' ''SEARCH'' ''x''
     = Inl AttributeError"
  using log_activity_outcome [of "\<lparr>content = Corrupt, writable = True\<rparr>" "''t1''" "''ip''" "''ann''" "''SEARCH''" "''x''"]
    log_activity_outcome [of "\<lparr>content = Stored [], writable = False\<rparr>" "''t1''" "''ip''" "''ann''" "''SEARCH''" "''x''"]
    log_activity_outcome [of "\<lparr>content = NotList, writable = False\<rparr>" "''t1''" "''ip''" "''ann''" "''SEARCH''" "''x''"]
  by (simp add: read_logs_def)

text \<open>
  C7 as stated fails: with a journal file that cannot be written \<open>log_activity\<close> raises
  the error of the write, and with a journal file that holds a JSON object it raises
  AttributeError although the file can be written. A caller that does not catch the
  error fails with it (\<open>login_propagates_log_failure\<close>, for every digest function).
\<close>
theorem log_activity_fails_caller:
  "log_activity ''t1'' ''ip'' ex_readonly ''ann'' ''SEARCH'' ''x'' = Inl IOError
   \<and> log_activity ''t1'' ''ip'' ex_object ''ann'' ''SEARCH'' ''x'' = Inl AttributeError"
  by (simp add: log_activity_def ex_readonly_def ex_object_def)

text \<open>
  C8. After any non-empty sequence of successful calls the journal holds the last 1000
  entries of everything recorded so far (what it held before, then the new entries in
  call order): a suffix of the history, of length exactly 1000 once the history is
  longer than 1000. The journal file can be written and, when it can be read, holds a
  list.
\<close>
theorem journal_retains_last_1000:
  assumes "writable j" and "content j \<noteq> NotList" and "calls \<noteq> []"
  shows "\<exists>kept. log_all now addr j calls = Inr (j\<lparr>content := Stored kept\<rparr>)
           \<and> kept = drop (length (history now addr j calls) - 1000) (history now addr j calls)
           \<and> suffix kept (history now addr j calls)
           \<and> (1000 < length (history now addr j calls) \<longrightarrow> length kept = 1000)"
proof -
  obtain c cs where "calls = c # cs"
    using assms(3) by (cases calls) auto
  then show ?thesis
    using log_all_history [OF assms(1) assms(2), of now addr c cs]
    by (auto simp: suffix_drop)
qed

theorem journal_retains_last_1000_witness:
  "log_all ''t1'' ''ip'' \<lparr>content = Stored (replicate 1000 ex_entry), writable = True\<rparr>
      [(''ann'', ''SEARCH'', ''x''), (''bob'', ''LOGOUT'', ''y'')]
     = Inr \<lparr>content = Stored (replicate 998 ex_entry @
               [make_entry ''t1'' ''ip'' (''ann'', ''SEARCH'', ''x''),
                make_entry ''t1'' ''ip'' (''bob'', ''LOGOUT'', ''y'')]),
            writable = True\<rparr>"
  using journal_retains_last_1000 [of "\<lparr>content = Stored (replicate 1000 ex_entry), writable = True\<rparr>"
      "[(''ann'', ''SEARCH'', ''x''), (''bob'', ''LOGOUT'', ''y'')]" "''t1''" "''ip''"]
  by (simp add: history_def read_logs_def)

section \<open>Catalog loader\<close>

lemma load_product_database_eq:
  "load_product_database sr dir = load_files sr (csv_files dir) []"
  by (simp add: load_product_database_def csv_files_def Let_def)

lemma cells_under_present: "k \<in> set cols \<Longrightarrow> cells_under cols row k \<noteq> []"
  by (induction cols row k rule: cells_under.induct) auto

lemma row_get_present: "k \<in> set cols \<Longrightarrow> row_get cols row k \<noteq> None"
  using cells_under_present [of k cols row]
  by (auto simp: row_get_def split: list.splits)

lemma make_product_id: "make_product sr s cols i row n = Inr p \<Longrightarrow> product_id p = n"
  by (auto simp: make_product_def split: option.splits sum.splits)

lemma make_product_ok:
  assumes "has_required cols" and "row_converts cols row"
  shows "\<exists>p. make_product sr s cols i row n = Inr p"
proof -
  obtain v where v: "row_get cols row ''name'' = Some v"
    using assms(1) row_get_present [of "''name''" cols row] by (auto simp: has_required_def)
  obtain c where c: "row_get cols row ''price'' = Some c"
    using assms(1) row_get_present [of "''price''" cols row] by (auto simp: has_required_def)
  then obtain pr where pr: "float_of c = Inr pr"
    using assms(2) by (auto simp: row_converts_def row_error_def split: sum.splits)
  show ?thesis
    by (simp add: make_product_def v c pr)
qed

lemma make_product_fail:
  assumes "has_required cols" and "row_error cols row = Some e"
  shows "make_product sr s cols i row n = Inl e"
proof -
  obtain v where v: "row_get cols row ''name'' = Some v"
    using assms(1) row_get_present [of "''name''" cols row] by (auto simp: has_required_def)
  obtain c where c: "row_get cols row ''price'' = Some c" "float_of c = Inl e"
    using assms(2) by (auto simp: row_error_def split: option.splits sum.splits)
  show ?thesis
    by (simp add: make_product_def v c)
qed

lemma load_rows_skipped:
  "\<not> has_required cols \<Longrightarrow> load_rows sr s cols i rows acc = (None, acc)"
  by (induction rows arbitrary: i) (auto simp: has_required_def)

lemma rows_from_Nil: "rows_from s cols i [] = []"
  by (simp add: rows_from_def enumerate_simps)

lemma rows_from_Cons:
  "rows_from s cols i (row # rows)
     = (if row_converts cols row then (s, cols, i, row) # rows_from s cols (Suc i) rows else [])"
  by (simp add: rows_from_def)

lemma first_error_Cons:
  "first_error cols (row # rows)
     = (if row_converts cols row then first_error cols rows else row_error cols row)"
  by (simp add: first_error_def)

lemma load_rows_char:
  assumes "has_required cols"
  shows "\<exists>new. load_rows sr s cols i rows acc = (first_error cols rows, acc @ new)
           \<and> map Inr new = map (record_at sr) (enumerate (length acc) (rows_from s cols i rows))"
proof (induction rows arbitrary: i acc)
  case Nil
  then show ?case by (simp add: first_error_def rows_from_Nil)
next
  case (Cons row rows)
  have guard: "\<not> (''name'' \<notin> set cols \<or> ''price'' \<notin> set cols)"
    using assms by (simp add: has_required_def)
  show ?case
  proof (cases "row_converts cols row")
    case True
    from make_product_ok [OF assms True]
    obtain p where p: "make_product sr s cols i row (length acc + 1) = Inr p" by blast
    from Cons.IH [of "Suc i" "acc @ [p]"]
    obtain new where new:
      "load_rows sr s cols (Suc i) rows (acc @ [p]) = (first_error cols rows, (acc @ [p]) @ new)"
      "map Inr new = map (record_at sr) (enumerate (length (acc @ [p])) (rows_from s cols (Suc i) rows))"
      by blast
    have "load_rows sr s cols i (row # rows) acc = (first_error cols (row # rows), acc @ (p # new))"
      using guard p new(1) True by (simp add: first_error_Cons)
    moreover have "map Inr (p # new)
        = map (record_at sr) (enumerate (length acc) (rows_from s cols i (row # rows)))"
      using new(2) p True by (simp add: rows_from_Cons record_at_def)
    ultimately show ?thesis by blast
  next
    case False
    then obtain e where e: "row_error cols row = Some e"
      by (auto simp: row_converts_def)
    have "load_rows sr s cols i (row # rows) acc = (first_error cols (row # rows), acc @ [])"
      using guard make_product_fail [OF assms e] False e by (simp add: first_error_Cons)
    moreover have "map Inr []
        = map (record_at sr) (enumerate (length acc) (rows_from s cols i (row # rows)))"
      using False by (simp add: rows_from_Cons)
    ultimately show ?thesis by blast
  qed
qed

lemma load_file_char:
  "\<exists>new. load_file sr f acc = (file_error f, acc @ new)
         \<and> map Inr new = map (record_at sr) (enumerate (length acc) (file_rows f))"
proof (cases "snd f")
  case Unparsable
  then show ?thesis by (simp add: load_file_def file_error_def file_rows_def)
next
  case (Table columns rows)
  show ?thesis
  proof (cases "has_required (normalise columns)")
    case True
    from load_rows_char [OF True, of sr "title (splitext_root (fst f))" 0 rows acc]
    show ?thesis
      using Table True by (simp add: load_file_def file_error_def file_rows_def normalise_def)
  next
    case False
    then show ?thesis
      using Table load_rows_skipped [OF False]
      by (simp add: load_file_def file_error_def file_rows_def normalise_def)
  qed
qed

lemma load_file_error: "fst (load_file sr f acc) = file_error f"
  using load_file_char [of sr f acc] by auto

lemma load_files_char:
  "\<exists>new. load_files sr fs acc = acc @ new
         \<and> map Inr new = map (record_at sr) (enumerate (length acc) (concat (map file_rows fs)))"
proof (induction fs arbitrary: acc)
  case Nil
  then show ?case by simp
next
  case (Cons f fs)
  from load_file_char [of sr f acc]
  obtain n1 where n1: "load_file sr f acc = (file_error f, acc @ n1)"
    "map Inr n1 = map (record_at sr) (enumerate (length acc) (file_rows f))" by blast
  from Cons.IH [of "acc @ n1"]
  obtain n2 where n2: "load_files sr fs (acc @ n1) = (acc @ n1) @ n2"
    "map Inr n2 = map (record_at sr)
        (enumerate (length (acc @ n1)) (concat (map file_rows fs)))" by blast
  have len: "length n1 = length (file_rows f)"
    using n1(2) by (metis length_map length_enumerate)
  have "load_files sr (f # fs) acc = acc @ (n1 @ n2)"
    using n1(1) n2(1) by simp
  moreover have "map Inr (n1 @ n2)
      = map (record_at sr) (enumerate (length acc) (concat (map file_rows (f # fs))))"
    using n1(2) n2(2) len by (simp add: enumerate_append_eq)
  ultimately show ?case by blast
qed

lemma load_char:
  "map Inr (load_product_database sr dir) = map (record_at sr) (enumerate 0 (accepted_rows dir))"
  using load_files_char [of sr "csv_files dir" "[]"]
  by (auto simp: load_product_database_eq accepted_rows_def)

lemma load_length: "length (load_product_database sr dir) = length (accepted_rows dir)"
  using load_char [of sr dir] by (metis length_map length_enumerate)


lemma load_ids:
  "map product_id (load_product_database sr dir) = [1..<Suc (length (accepted_rows dir))]"
proof (rule nth_equalityI)
  show "length (map product_id (load_product_database sr dir))
      = length [1..<Suc (length (accepted_rows dir))]"
    by (simp add: load_length del: upt_Suc)
next
  fix k assume "k < length (map product_id (load_product_database sr dir))"
  then have k: "k < length (accepted_rows dir)" by (simp add: load_length)
  then have kl: "k < length (load_product_database sr dir)" by (simp add: load_length)
  have "map Inr (load_product_database sr dir) ! k
      = map (record_at sr) (enumerate 0 (accepted_rows dir)) ! k"
    by (simp add: load_char)
  then have "record_at sr (k, accepted_rows dir ! k) = Inr (load_product_database sr dir ! k)"
    using k kl by (simp add: nth_enumerate_eq)
  then have "product_id (load_product_database sr dir ! k) = Suc k"
    by (auto simp: record_at_def split: prod.splits dest: make_product_id)
  then show "map product_id (load_product_database sr dir) ! k
      = [1..<Suc (length (accepted_rows dir))] ! k"
    using k kl by (simp del: upt_Suc)
qed

text \<open>
  C4. For every directory, the record at position \<open>k\<close> of the result, counted from 0, is
  the dictionary built from the accepted row at position \<open>k\<close>, with the store name of
  that row's file and the identifier \<open>k + 1\<close>; the accepted rows are listed file after
  file in the order of the directory and, within a file, row after row. So the
  identifiers are 1, 2, ..., n without gap or duplicate, and the count runs on from one
  file to the next.
\<close>
theorem product_ids_dense:
  "map Inr (load_product_database series_str dir)
     = map (record_at series_str) (enumerate 0 (accepted_rows dir))
   \<and> map product_id (load_product_database series_str dir)
       = [1..<Suc (length (accepted_rows dir))]"
  using load_char [of series_str dir] load_ids [of series_str dir] by simp

theorem product_ids_dense_witness:
  "map (\<lambda>p. (product_id p, store p, name p)) (load_product_database ex_series_str ex_stores)
     = [(1, ''Shop'', ''Phone''), (2, ''Shop'', ''nan''), (3, ''Bad'', ''Phone''),
        (4, ''Gaps'', ''Phone A''), (5, ''Gaps'', ''Phone B''), (6, ''Gaps'', ''Phone C'')]"
proof -
  let ?g = "\<lambda>x. case x of Inl (e :: error) \<Rightarrow> None
                         | Inr p \<Rightarrow> Some (product_id p, store p, name p)"
  have "map ?g (map (record_at ex_series_str) (enumerate 0 (accepted_rows ex_stores)))
     = map Some [(1, ''Shop'', ''Phone''), (2, ''Shop'', ''nan''), (3, ''Bad'', ''Phone''),
        (4, ''Gaps'', ''Phone A''), (5, ''Gaps'', ''Phone B''), (6, ''Gaps'', ''Phone C'')]"
    by code_simp
  then have "map ?g (map Inr (load_product_database ex_series_str ex_stores))
     = map Some [(1, ''Shop'', ''Phone''), (2, ''Shop'', ''nan''), (3, ''Bad'', ''Phone''),
        (4, ''Gaps'', ''Phone A''), (5, ''Gaps'', ''Phone B''), (6, ''Gaps'', ''Phone C'')]"
    using product_ids_dense [of ex_series_str ex_stores] by simp
  then have "map Some (map (\<lambda>p. (product_id p, store p, name p))
        (load_product_database ex_series_str ex_stores))
     = map Some [(1, ''Shop'', ''Phone''), (2, ''Shop'', ''nan''), (3, ''Bad'', ''Phone''),
        (4, ''Gaps'', ''Phone A''), (5, ''Gaps'', ''Phone B''), (6, ''Gaps'', ''Phone C'')]"
    by (simp add: comp_def)
  then show ?thesis
    by (simp only: inj_map_eq_map [OF inj_Some])
qed

lemma first_error_None: "first_error cols rows = None \<longleftrightarrow> list_all (row_converts cols) rows"
proof (induction rows)
  case Nil
  then show ?case by (simp add: first_error_def)
next
  case (Cons row rows)
  then show ?case
    by (auto simp: first_error_Cons row_converts_def)
qed

lemma rows_from_length:
  "length (rows_from s cols i rows) = length (takeWhile (row_converts cols) rows)"
  by (induction rows arbitrary: i) (simp_all add: rows_from_Nil rows_from_Cons)

lemma file_rows_clean:
  assumes "file_error f = None"
  shows "length (file_rows f) = rows_with_columns f"
proof (cases "snd f")
  case Unparsable
  then show ?thesis using assms by (simp add: file_error_def)
next
  case (Table columns rows)
  show ?thesis
  proof (cases "has_required (normalise columns)")
    case True
    then have "list_all (row_converts (normalise columns)) rows"
      using assms Table by (simp add: file_error_def first_error_None)
    then have tw: "takeWhile (row_converts (normalise columns)) rows = rows"
      by (simp add: list_all_iff)
    show ?thesis
      using Table True by (simp add: file_rows_def rows_with_columns_def rows_from_length tw)
  next
    case False
    then show ?thesis using Table by (simp add: file_rows_def rows_with_columns_def)
  qed
qed

lemma accepted_rows_clean:
  "list_all (\<lambda>f. file_error f = None) fs \<Longrightarrow>
   length (concat (map file_rows fs)) = sum_list (map rows_with_columns fs)"
  by (induction fs) (simp_all add: file_rows_clean)

text \<open>
  C5, as the code has it. When the processing of no file raises, the number of loaded
  records is the number of rows of the files whose normalised header has both a
  \<^verbatim>\<open>name\<close> and a \<^verbatim>\<open>price\<close> column; the rows of a file that lacks one of the two
  columns are skipped. The guard looks at the columns, not at the row's cells.
\<close>
theorem load_count:
  assumes "loads_cleanly series_str dir"
  shows "length (load_product_database series_str dir)
           = sum_list (map rows_with_columns (csv_files dir))"
  using assms accepted_rows_clean [of "csv_files dir"]
  by (simp add: load_length accepted_rows_def loads_cleanly_def load_file_error)

theorem load_count_witness:
  "loads_cleanly ex_series_str ex_dir \<and> length (load_product_database ex_series_str ex_dir) = 2"
proof -
  have c: "loads_cleanly ex_series_str ex_dir" by code_simp
  have n: "sum_list (map rows_with_columns (csv_files ex_dir)) = 2" by code_simp
  show ?thesis using load_count [OF c] c n by simp
qed

text \<open>
  C5 as stated fails: a row whose name cell is empty supplies no name, yet it is loaded,
  with the name \<^verbatim>\<open>nan\<close>. The file has two rows, one of them with both a name and a
  price, and two records are loaded.
\<close>
theorem load_count_counterexample:
  "loads_cleanly ex_series_str [ex_shop]
   \<and> map name (load_product_database ex_series_str [ex_shop]) = [''Phone'', ''nan'']
   \<and> length (load_product_database ex_series_str [ex_shop]) = 2
   \<and> sum_list (map rows_supplying_both (csv_files [ex_shop])) = 1"
  by code_simp

text \<open>
  A file with two columns that are both \<^verbatim>\<open>price\<close> after normalisation does not load
  cleanly: \<^verbatim>\<open>row['price']\<close> is a Series, \<^verbatim>\<open>float\<close> raises TypeError at the first row
  and the file gives no record.
\<close>
lemma twin_columns_raise: "\<not> loads_cleanly ex_series_str [ex_twins] \<and> load_product_database ex_series_str [ex_twins] = []
  \<and> fst (load_file ex_series_str ex_twins []) = Some TypeError"
  by code_simp












section \<open>Matching and ranking\<close>

lemma any_word_in_ex: "any_word_in ws t = list_ex (\<lambda>w. w \<noteq> [] \<and> sublist w t) ws"
  by (induction ws) auto

lemma split_aux_nonempty: "[] \<notin> set (split_aux cur s)"
  by (induction s arbitrary: cur) auto

lemma any_word_in_split: "any_word_in (split_ws k) t = list_ex (\<lambda>w. sublist w t) (split_ws k)"
proof -
  have "w \<noteq> []" if "w \<in> set (split_ws k)" for w
    using that split_aux_nonempty [of "[]" k] by (auto simp: split_ws_def)
  then show ?thesis
    unfolding any_word_in_ex list_ex_iff by blast
qed

lemma find_matches_keywords:
  "keywords \<noteq> [] \<Longrightarrow> find_matches prediction keywords catalog = filter (keyword_hit keywords) catalog"
  by (induction catalog) (simp_all add: Let_def any_word_in_split keyword_hit_def)

lemma find_matches_label:
  "find_matches prediction [] catalog = filter (category_hit prediction) catalog"
  by (induction catalog) (simp_all add: Let_def category_hit_def)


lemma find_matches_no_nan:
  "no_nan catalog \<Longrightarrow> no_nan (find_matches prediction keywords catalog)"
  by (cases "keywords = []")
     (simp_all add: find_matches_keywords find_matches_label no_nan_def list_all_iff)

lemma process_matches_no_nan:
  assumes "no_nan catalog"
  shows "process_matches catalog prediction form_keywords =
     (let found = find_matches prediction (strip (lower form_keywords)) catalog;
          ranked = sort_key (\<lambda>m. rank (price m)) found
      in Some \<lparr>matches = ranked,
               global_best_price = (case ranked of [] \<Rightarrow> None | m # ms \<Rightarrow> Some (price m))\<rparr>)"
proof -
  let ?found = "find_matches prediction (strip (lower form_keywords)) catalog"
  have nn: "list_all (\<lambda>m. price m \<noteq> NaN) ?found"
    using find_matches_no_nan [OF assms] by (simp add: no_nan_def)
  show ?thesis
  proof (cases ?found)
    case Nil
    then show ?thesis by (simp add: process_matches_def)
  next
    case (Cons a as)
    then have "sort_key (\<lambda>m. rank (price m)) ?found \<noteq> []"
      by (metis length_sort list.size(3) nat.distinct(1) length_Cons)
    then obtain m ms where s: "sort_key (\<lambda>m. rank (price m)) ?found = m # ms"
      by (cases "sort_key (\<lambda>m. rank (price m)) ?found") auto
    show ?thesis
      using nn s Cons by (simp add: process_matches_def sort_by_price_def Let_def)
  qed
qed

lemma sort_by_price_mset: "sort_by_price ms = Some ranked \<Longrightarrow> mset ranked = mset ms"
  by (auto simp: sort_by_price_def split: if_splits)

lemma process_matches_mset:
  assumes "process_matches catalog prediction form_keywords = Some r"
  shows "mset (matches r) = mset (find_matches prediction (strip (lower form_keywords)) catalog)"
proof -
  let ?found = "find_matches prediction (strip (lower form_keywords)) catalog"
  show ?thesis
  proof (cases ?found)
    case Nil
    then show ?thesis using assms by (auto simp: process_matches_def)
  next
    case (Cons a as)
    then obtain m ms where s: "sort_by_price ?found = Some (m # ms)" and r: "matches r = m # ms"
      using assms
      by (auto simp: process_matches_def Let_def split: option.splits list.splits)
    show ?thesis
      using sort_by_price_mset [OF s] r by simp
  qed
qed

lemma process_matches_label_free:
  "strip (lower form_keywords) \<noteq> [] \<Longrightarrow>
   process_matches catalog prediction form_keywords = process_matches catalog prediction' form_keywords"
  by (simp add: process_matches_def find_matches_keywords)

text \<open>
  C1, as the code has it. When the keywords, lowered and stripped, are not empty, the
  label is not consulted: the result is the same for every label. The records selected
  are exactly those of the catalog, in catalog order, whose target string contains some
  token of the keywords; the target string is name, brand and category joined by single
  spaces and lowered. The ranked result, which exists when no price is NaN, holds the
  same records.
\<close>
theorem keywords_take_precedence:
  assumes "strip (lower form_keywords) \<noteq> []"
  shows "find_matches prediction (strip (lower form_keywords)) catalog
           = filter (keyword_hit (strip (lower form_keywords))) catalog
       \<and> process_matches catalog prediction form_keywords
           = process_matches catalog prediction' form_keywords
       \<and> (\<forall>r. process_matches catalog prediction form_keywords = Some r \<longrightarrow>
             mset (matches r) = mset (filter (keyword_hit (strip (lower form_keywords))) catalog))
       \<and> (no_nan catalog \<longrightarrow> (\<exists>r. process_matches catalog prediction form_keywords = Some r))"
proof (intro conjI allI impI)
  show f: "find_matches prediction (strip (lower form_keywords)) catalog
           = filter (keyword_hit (strip (lower form_keywords))) catalog"
    using assms by (rule find_matches_keywords)
  show "process_matches catalog prediction form_keywords
           = process_matches catalog prediction' form_keywords"
    using assms by (rule process_matches_label_free)
  show "mset (matches r) = mset (filter (keyword_hit (strip (lower form_keywords))) catalog)"
    if "process_matches catalog prediction form_keywords = Some r" for r
    using process_matches_mset [OF that] f by simp
  show "\<exists>r. process_matches catalog prediction form_keywords = Some r" if "no_nan catalog"
    using process_matches_no_nan [OF that] by (simp add: Let_def)
qed

theorem keywords_take_precedence_witness:
  "strip (lower '' Nike  PHONE '') \<noteq> []
   \<and> process_matches ex_catalog ''Shoes'' '' Nike  PHONE ''
       = process_matches ex_catalog ''Laptop'' '' Nike  PHONE ''
   \<and> find_matches ''Shoes'' (strip (lower '' Nike  PHONE '')) ex_catalog = ex_catalog"
proof -
  have h: "strip (lower '' Nike  PHONE '') \<noteq> []"
    by code_simp
  have e: "filter (keyword_hit (strip (lower '' Nike  PHONE ''))) ex_catalog = ex_catalog"
    by code_simp
  show ?thesis
    using keywords_take_precedence [OF h, of "''Shoes''" ex_catalog "''Laptop''"] h
    by (simp only: e simp_thms)
qed

text \<open>
  C1 as stated fails: the token \<^verbatim>\<open>maxnike\<close> occurs in the concatenation of name, brand
  and category, across the end of the name and the start of the brand, but not in the
  target string, where a space separates the fields; the record is not matched.
\<close>
theorem keywords_concatenation_counterexample:
  "strip (lower ''maxnike'') \<noteq> []
   \<and> claimed_keyword_hit (strip (lower ''maxnike'')) (ex_item 3 ''Air Max'' ''Nike'' ''shoes'' 150)
   \<and> process_matches [ex_item 3 ''Air Max'' ''Nike'' ''shoes'' 150] ''Unknown'' ''maxnike''
       = Some \<lparr>matches = [], global_best_price = None\<rparr>"
  by code_simp

text \<open>
  C2. When the keywords are empty after trimming, the records selected are exactly those
  of the catalog, in catalog order, whose lowered category contains the lowered label
  or is contained in it. The ranked result, which exists when no price is NaN, holds the
  same records.
\<close>
theorem label_matching_symmetric:
  assumes "strip (lower form_keywords) = []"
  shows "find_matches prediction (strip (lower form_keywords)) catalog
           = filter (category_hit prediction) catalog
       \<and> (\<forall>r. process_matches catalog prediction form_keywords = Some r \<longrightarrow>
             mset (matches r) = mset (filter (category_hit prediction) catalog))
       \<and> (no_nan catalog \<longrightarrow> (\<exists>r. process_matches catalog prediction form_keywords = Some r))"
proof (intro conjI allI impI)
  show f: "find_matches prediction (strip (lower form_keywords)) catalog
           = filter (category_hit prediction) catalog"
    unfolding assms by (rule find_matches_label)
  show "mset (matches r) = mset (filter (category_hit prediction) catalog)"
    if "process_matches catalog prediction form_keywords = Some r" for r
    using process_matches_mset [OF that] f by simp
  show "\<exists>r. process_matches catalog prediction form_keywords = Some r" if "no_nan catalog"
    using process_matches_no_nan [OF that] by (simp add: Let_def)
qed

theorem label_matching_symmetric_witness:
  "strip (lower ''  '') = []
   \<and> find_matches ''Running Shoes'' (strip (lower ''  '')) ex_catalog
       = [ex_item 3 ''Air Max'' ''Nike'' ''shoes'' 150]
   \<and> find_matches ''Phone'' (strip (lower ''  '')) ex_catalog
       = [ex_item 1 ''Phone A'' ''Apple'' ''smartphone'' 999,
          ex_item 2 ''Phone B'' ''Samsung'' ''smartphone'' 849,
          ex_item 4 ''Phone C'' ''Sony'' ''smartphone'' 849]"
proof -
  have h: "strip (lower ''  '') = []"
    by code_simp
  have e1: "filter (category_hit ''Running Shoes'') ex_catalog
       = [ex_item 3 ''Air Max'' ''Nike'' ''shoes'' 150]"
    by code_simp
  have e2: "filter (category_hit ''Phone'') ex_catalog
       = [ex_item 1 ''Phone A'' ''Apple'' ''smartphone'' 999,
          ex_item 2 ''Phone B'' ''Samsung'' ''smartphone'' 849,
          ex_item 4 ''Phone C'' ''Sony'' ''smartphone'' 849]"
    by code_simp
  show ?thesis
    using label_matching_symmetric [OF h, of "''Running Shoes''" ex_catalog]
      label_matching_symmetric [OF h, of "''Phone''" ex_catalog] h
    by (simp only: e1 e2 simp_thms)
qed







end
